theory Spec2Isabelle
  imports Main
begin

section \<open>JSON values and Python's view of them\<close>

text \<open>
  Both stores hold JSON documents, and \<open>json.load\<close> hands the coordinator whatever the
  document contains. A JSON object is loaded as a Python \<open>dict\<close>, which keeps its keys in
  insertion order: it is an association list here, looked up with \<open>map_of\<close> (the keys of
  a loaded dict are distinct). Numbers are integers in this model; the coordinator only
  ever tests a number for truthiness.
\<close>

datatype json =
    JNull
  | JBool bool
  | JNum int
  | JStr string
  | JArr "json list"
  | JObj "(string \<times> json) list"

type_synonym dict = "(string \<times> json) list"

text \<open>Python's truth value of a loaded document: what \<open>if not x\<close> tests.\<close>

fun truthy :: "json \<Rightarrow> bool" where
  "truthy JNull = False"
| "truthy (JBool b) = b"
| "truthy (JNum n) = (n \<noteq> 0)"
| "truthy (JStr s) = (s \<noteq> [])"
| "truthy (JArr xs) = (xs \<noteq> [])"
| "truthy (JObj kvs) = (kvs \<noteq> [])"

text \<open>\<open>d.get(k)\<close> on a dict: \<open>None\<close> (here \<open>JNull\<close>) when the key is absent.\<close>

definition dict_get :: "dict \<Rightarrow> string \<Rightarrow> json" where
  "dict_get d k = (case map_of d k of None \<Rightarrow> JNull | Some v \<Rightarrow> v)"

text \<open>\<open>d.get(k, dflt)\<close>: the default only replaces an absent key, not a stored null.\<close>

definition dict_get_default :: "dict \<Rightarrow> string \<Rightarrow> json \<Rightarrow> json" where
  "dict_get_default d k dflt = (case map_of d k of None \<Rightarrow> dflt | Some v \<Rightarrow> v)"

text \<open>
  \<open>d[k] = v\<close>: an existing key keeps its position, a new key goes to the end.
\<close>

primrec dict_set :: "string \<Rightarrow> json \<Rightarrow> dict \<Rightarrow> dict" where
  "dict_set k v [] = [(k, v)]"
| "dict_set k v (p # ps) = (if fst p = k then (k, v) # ps else p # dict_set k v ps)"

text \<open>
  \<open>d.get(key)\<close> where the key is itself a loaded value. The keys of a loaded dict
  are strings, so a hashable key that is not a string is never found; a list or a dict
  as key is unhashable and raises \<open>TypeError\<close> (the result \<open>None\<close> here).
\<close>

fun key_get :: "dict \<Rightarrow> json \<Rightarrow> json option" where
  "key_get d (JStr k) = Some (dict_get d k)"
| "key_get d (JArr _) = None"
| "key_get d (JObj _) = None"
| "key_get d _ = Some JNull"

section \<open>The two stores\<close>

text \<open>
  A file of either store is absent, present but not loadable (invalid JSON, or any other
  error while reading), or holds a JSON document.
\<close>

datatype store_file = Missing | Corrupt | Content json

text \<open>
  \<open>load_scene_state\<close>: a missing file and every error while loading give the empty dict.
\<close>

fun load_scene_state :: "store_file \<Rightarrow> json" where
  "load_scene_state Missing = JObj []"
| "load_scene_state Corrupt = JObj []"
| "load_scene_state (Content state) = state"

text \<open>
  \<open>save_scene_state\<close> replaces the whole file by the dumped state. The store is taken to
  be reliable: the write itself does not fail.
\<close>

definition save_scene_state :: "json \<Rightarrow> store_file" where
  "save_scene_state state = Content state"

text \<open>
  \<open>load_scene_data\<close>: the Scene Definition Store maps a scene name to a file; a missing
  or unloadable file gives \<open>None\<close>.
\<close>

definition load_scene_data :: "(string \<Rightarrow> store_file) \<Rightarrow> string \<Rightarrow> json option" where
  "load_scene_data scenes scene_name =
     (case scenes scene_name of
        Missing \<Rightarrow> None
      | Corrupt \<Rightarrow> None
      | Content scene_data \<Rightarrow> Some scene_data)"

section \<open>Scene Coordinator\<close>

subsection \<open>start\<close>

text \<open>
  \<open>start_scene(scene_name, starting_node)\<close> returns a flag and leaves the state file
  as the second component. \<open>now\<close> is the value of \<open>datetime.utcnow().isoformat()\<close>.
  Scene data that is truthy but not a dict raises in \<open>starting_node not in scene_data\<close>
  or in \<open>scene_data[starting_node]\<close> (a list or a string cannot be indexed by a string),
  and a starting node that is not a dict raises in \<open>first_node.get\<close>; the handler
  returns \<open>False\<close>.
\<close>

definition start_scene :: "(string \<Rightarrow> store_file) \<Rightarrow> string \<Rightarrow> string \<Rightarrow> string \<Rightarrow> store_file \<Rightarrow> bool \<times> store_file" where
  "start_scene scenes now scene_name starting_node sf =
     (case load_scene_data scenes scene_name of
        None \<Rightarrow> (False, sf)
      | Some scene_data \<Rightarrow>
          if \<not> truthy scene_data then (False, sf)
          else (case scene_data of
                  JObj g \<Rightarrow>
                    (case map_of g starting_node of
                       None \<Rightarrow> (False, sf)
                     | Some first_node \<Rightarrow>
                         (case first_node of
                            JObj nd \<Rightarrow>
                              let first_speaker = dict_get nd ''speaker'' in
                              if \<not> truthy first_speaker then (False, sf)
                              else (True, save_scene_state (JObj
                                     [(''scene'', JStr scene_name),
                                      (''current_node'', JStr starting_node),
                                      (''next_speaker'', first_speaker),
                                      (''waiting_for_choice'', JBool False),
                                      (''started_at'', JStr now),
                                      (''scene_active'', JBool True)]))
                          | _ \<Rightarrow> (False, sf)))
                | _ \<Rightarrow> (False, sf)))"

subsection \<open>advance\<close>

text \<open>
  Every branch of \<open>advance_scene\<close> logs one line before it returns; the model returns it
  beside the result, since the result alone is \<open>None\<close> in all branches but one.
  The level of the line is the one the code logs it at.
\<close>

datatype advance_log =
    NoActiveScene
  | InvalidSceneState
  | SceneDataNotFound
  | CurrentNodeNotFound
  | SceneEnded
  | InvalidNextFormat
  | NextNodeNotFound
  | NoSpeakerForNext
  | Advanced
  | ErrorAdvancing

datatype level = LDebug | LInfo | LError

fun log_level :: "advance_log \<Rightarrow> level" where
  "log_level NoActiveScene = LDebug"
| "log_level SceneEnded = LInfo"
| "log_level Advanced = LInfo"
| "log_level _ = LError"

text \<open>
  The choice of the next node from the \<open>next\<close> field, once it is known not to be
  \<open>None\<close>. The outer \<open>None\<close> is the \<open>else\<close> branch (neither a string nor a dict);
  an empty choice mapping gives the node \<open>None\<close>.
\<close>

fun resolve_next :: "json \<Rightarrow> json option" where
  "resolve_next (JStr s) = Some (JStr s)"
| "resolve_next (JObj choices) =
     Some (case map_of choices ''continue'' of
             Some target \<Rightarrow> target
           | None \<Rightarrow> (case choices of [] \<Rightarrow> JNull | (label, target) # _ \<Rightarrow> target))"
| "resolve_next _ = None"

text \<open>The state written when the scene ends, and the one written by a step.\<close>

definition ended_state :: "string \<Rightarrow> dict \<Rightarrow> dict" where
  "ended_state now st =
     dict_set ''ended_at'' (JStr now)
       (dict_set ''next_speaker'' JNull
         (dict_set ''current_node'' JNull
           (dict_set ''scene_active'' (JBool False) st)))"

definition stepped_state :: "json \<Rightarrow> json \<Rightarrow> dict \<Rightarrow> dict" where
  "stepped_state next_node next_speaker st =
     dict_set ''waiting_for_choice'' (JBool False)
       (dict_set ''next_speaker'' next_speaker
         (dict_set ''current_node'' next_node st))"

text \<open>
  The part of \<open>advance_scene\<close> after the current node's data is found: \<open>g\<close> is the scene
  data, \<open>st\<close> the loaded state. A node or a next node that is truthy but not a dict raises
  \<open>AttributeError\<close> in \<open>.get\<close>. In \<open>next_node not in scene_data\<close> a string is looked
  up among the keys, a list or a dict is unhashable and raises \<open>TypeError\<close>, and any
  other value is not a key.
\<close>

definition advance_from :: "string \<Rightarrow> store_file \<Rightarrow> dict \<Rightarrow> dict \<Rightarrow> json \<Rightarrow> json option \<times> advance_log \<times> store_file" where
  "advance_from now sf st g node_data =
     (case node_data of
        JObj nd \<Rightarrow>
          let next_info = dict_get nd ''next'' in
          if next_info = JNull
          then (None, SceneEnded, save_scene_state (JObj (ended_state now st)))
          else (case resolve_next next_info of
                  None \<Rightarrow> (None, InvalidNextFormat, sf)
                | Some next_node \<Rightarrow>
                    if \<not> truthy next_node then (None, NextNodeNotFound, sf)
                    else (case next_node of
                            JStr n \<Rightarrow>
                              (case map_of g n of
                                 None \<Rightarrow> (None, NextNodeNotFound, sf)
                               | Some next_node_data \<Rightarrow>
                                   (case next_node_data of
                                      JObj next_nd \<Rightarrow>
                                        let next_speaker = dict_get next_nd ''speaker'' in
                                        if \<not> truthy next_speaker
                                        then (None, NoSpeakerForNext, sf)
                                        else (Some next_node_data, Advanced,
                                              save_scene_state
                                                (JObj (stepped_state next_node next_speaker st)))
                                    | _ \<Rightarrow> (None, ErrorAdvancing, sf)))
                          | JArr _ \<Rightarrow> (None, ErrorAdvancing, sf)
                          | JObj _ \<Rightarrow> (None, ErrorAdvancing, sf)
                          | _ \<Rightarrow> (None, NextNodeNotFound, sf)))
      | _ \<Rightarrow> (None, ErrorAdvancing, sf))"

text \<open>
  \<open>advance_scene()\<close>: the result, the line logged, and the state file afterwards.
  A state that is truthy but not a dict raises in \<open>state.get\<close>; a scene name that is not
  a string raises in \<open>os.path.join\<close>; scene data that is truthy but not a dict raises in
  \<open>scene_data.get\<close>, as does a current node that is unhashable.
\<close>

definition advance_scene :: "(string \<Rightarrow> store_file) \<Rightarrow> string \<Rightarrow> store_file \<Rightarrow> json option \<times> advance_log \<times> store_file" where
  "advance_scene scenes now sf =
     (let state = load_scene_state sf in
      if \<not> truthy state then (None, NoActiveScene, sf)
      else (case state of
              JObj st \<Rightarrow>
                if \<not> truthy (dict_get st ''scene_active'') then (None, NoActiveScene, sf)
                else
                  let scene_name = dict_get st ''scene'';
                      current_node = dict_get st ''current_node'' in
                  if \<not> truthy scene_name \<or> \<not> truthy current_node
                  then (None, InvalidSceneState, sf)
                  else (case scene_name of
                          JStr sn \<Rightarrow>
                            (case load_scene_data scenes sn of
                               None \<Rightarrow> (None, SceneDataNotFound, sf)
                             | Some scene_data \<Rightarrow>
                                 if \<not> truthy scene_data then (None, SceneDataNotFound, sf)
                                 else (case scene_data of
                                         JObj g \<Rightarrow>
                                           (case key_get g current_node of
                                              None \<Rightarrow> (None, ErrorAdvancing, sf)
                                            | Some node_data \<Rightarrow>
                                                if \<not> truthy node_data
                                                then (None, CurrentNodeNotFound, sf)
                                                else advance_from now sf st g node_data)
                                       | _ \<Rightarrow> (None, ErrorAdvancing, sf)))
                        | _ \<Rightarrow> (None, ErrorAdvancing, sf))
            | _ \<Rightarrow> (None, ErrorAdvancing, sf)))"

subsection \<open>stop and status\<close>

text \<open>
  \<open>stop_scene()\<close>. A state that is truthy but not a dict raises \<open>TypeError\<close> in the
  first item assignment, and the handler returns \<open>False\<close>.
\<close>

definition stopped_state :: "string \<Rightarrow> dict \<Rightarrow> dict" where
  "stopped_state now st =
     dict_set ''stopped_at'' (JStr now)
       (dict_set ''next_speaker'' JNull
         (dict_set ''current_node'' JNull
           (dict_set ''scene_active'' (JBool False) st)))"

definition stop_scene :: "string \<Rightarrow> store_file \<Rightarrow> bool \<times> store_file" where
  "stop_scene now sf =
     (let state = load_scene_state sf in
      if \<not> truthy state then (True, sf)
      else (case state of
              JObj st \<Rightarrow> (True, save_scene_state (JObj (stopped_state now st)))
            | _ \<Rightarrow> (False, sf)))"

text \<open>
  \<open>get_scene_status()\<close>. A state that is truthy but not a dict raises \<open>AttributeError\<close>
  in \<open>state.get\<close>, and the degraded answer carries its text.
\<close>

fun py_type_name :: "json \<Rightarrow> string" where
  "py_type_name JNull = ''NoneType''"
| "py_type_name (JBool _) = ''bool''"
| "py_type_name (JNum _) = ''int''"
| "py_type_name (JStr _) = ''str''"
| "py_type_name (JArr _) = ''list''"
| "py_type_name (JObj _) = ''dict''"

definition no_attribute_get :: "json \<Rightarrow> string" where
  "no_attribute_get v =
     [CHR 0x27] @ py_type_name v @ [CHR 0x27] @ '' object has no attribute '' @
     [CHR 0x27] @ ''get'' @ [CHR 0x27]"

definition get_scene_status :: "store_file \<Rightarrow> dict" where
  "get_scene_status sf =
     (let state = load_scene_state sf in
      if \<not> truthy state then [(''active'', JBool False)]
      else (case state of
              JObj st \<Rightarrow>
                [(''active'', dict_get_default st ''scene_active'' (JBool False)),
                 (''scene'', dict_get st ''scene''),
                 (''current_node'', dict_get st ''current_node''),
                 (''next_speaker'', dict_get st ''next_speaker''),
                 (''waiting_for_choice'', dict_get_default st ''waiting_for_choice'' (JBool False)),
                 (''started_at'', dict_get st ''started_at''),
                 (''ended_at'', dict_get st ''ended_at''),
                 (''stopped_at'', dict_get st ''stopped_at'')]
            | _ \<Rightarrow> [(''active'', JBool False), (''error'', JStr (no_attribute_get state))]))"

subsection \<open>validate\<close>

text \<open>
  \<open>validate_scene(scene_name)\<close>, reduced to the \<open>valid\<close> field of its report: the scene
  loads, has a \<open>start\<close> node, and no node adds an error or raises. A node passes when it
  is a dict with the keys \<open>speaker\<close> and \<open>text\<close> and its \<open>next\<close> is \<open>None\<close>, a string that is a
  key of the scene, a dict whose values are all keys of the scene, or of any other type
  (which the code does not look at). A speaker that is a list or a dict raises in
  \<open>speakers.add\<close>, as does an unhashable choice target in \<open>target not in scene_data\<close>,
  and the handler leaves \<open>valid\<close> false.
\<close>

fun hashable :: "json \<Rightarrow> bool" where
  "hashable (JArr _) = False"
| "hashable (JObj _) = False"
| "hashable _ = True"

definition node_passes :: "dict \<Rightarrow> json \<Rightarrow> bool" where
  "node_passes g node_data =
     (case node_data of
        JObj nd \<Rightarrow>
          (case map_of nd ''speaker'' of None \<Rightarrow> False | Some speaker \<Rightarrow> hashable speaker) \<and>
          map_of nd ''text'' \<noteq> None \<and>
          (case dict_get nd ''next'' of
             JNull \<Rightarrow> True
           | JStr t \<Rightarrow> map_of g t \<noteq> None
           | JObj choices \<Rightarrow>
               list_all (\<lambda>(choice, target).
                           case target of JStr t \<Rightarrow> map_of g t \<noteq> None | _ \<Rightarrow> False) choices
           | _ \<Rightarrow> True)
      | _ \<Rightarrow> False)"

definition validate_scene :: "(string \<Rightarrow> store_file) \<Rightarrow> string \<Rightarrow> bool" where
  "validate_scene scenes scene_name =
     (case load_scene_data scenes scene_name of
        None \<Rightarrow> False
      | Some scene_data \<Rightarrow>
          if \<not> truthy scene_data then False
          else (case scene_data of
                  JObj g \<Rightarrow>
                    map_of g ''start'' \<noteq> None \<and>
                    list_all (\<lambda>(node_name, node_data). node_passes g node_data) g
                | _ \<Rightarrow> False))"

section \<open>Turn Participant\<close>

text \<open>
  One tick of the polling loop of the participant \<open>bot_name\<close>. What a tick does is
  recorded as the messages handed to the channel, whether \<open>advance_scene\<close> was called,
  and the state file afterwards.
\<close>

record tick_result =
  sent :: "(string \<times> json) list"
  advance_called :: bool
  state_after :: store_file

text \<open>
  \<open>_send_dialogue_message\<close>: \<open>channel_up\<close> says that the bot instance and the channel
  are there and the send goes through; the message is the speaker's name with the
  node's text. Failures are logged and swallowed.
\<close>

definition send_dialogue_message :: "string \<Rightarrow> bool \<Rightarrow> dict \<Rightarrow> (string \<times> json) list" where
  "send_dialogue_message bot_name channel_up nd =
     (if channel_up then [(bot_name, dict_get_default nd ''text'' (JStr []))] else [])"

text \<open>
  \<open>asyncio.sleep\<close> raises \<open>TypeError\<close> unless the delay compares with a number, and
  \<open>OverflowError\<close> when a positive integer delay is too large for a float: the loop adds
  it to its clock, and the conversion fails from \<open>2^1024 - 2^970\<close> on, the first integer
  that rounds above the largest float.
\<close>

fun sleepable :: "json \<Rightarrow> bool" where
  "sleepable (JNum n) = (n < 2 ^ 1024 - 2 ^ 970)"
| "sleepable (JBool b) = True"
| "sleepable _ = False"

text \<open>
  \<open>_perform_dialogue_turn(state)\<close>, called with the state the tick has just read from
  \<open>sf\<close>. Every exception is caught by the handler of the function, which returns. The
  tick is taken alone: no other process writes the state file between the read and the
  call of \<open>advance_scene\<close>, which loads the file again.
\<close>

definition perform_dialogue_turn :: "(string \<Rightarrow> store_file) \<Rightarrow> string \<Rightarrow> string \<Rightarrow> bool \<Rightarrow> store_file \<Rightarrow> dict \<Rightarrow> tick_result" where
  "perform_dialogue_turn scenes now bot_name channel_up sf st =
     (let abandoned = \<lparr>sent = [], advance_called = False, state_after = sf\<rparr>;
          scene_name = dict_get st ''scene'';
          current_node = dict_get st ''current_node'' in
      if \<not> truthy scene_name \<or> \<not> truthy current_node then abandoned
      else (case scene_name of
              JStr sn \<Rightarrow>
                (case load_scene_data scenes sn of
                   None \<Rightarrow> abandoned
                 | Some scene_data \<Rightarrow>
                     if \<not> truthy scene_data then abandoned
                     else (case scene_data of
                             JObj g \<Rightarrow>
                               (case key_get g current_node of
                                  None \<Rightarrow> abandoned
                                | Some node_data \<Rightarrow>
                                    if \<not> truthy node_data then abandoned
                                    else (case node_data of
                                            JObj nd \<Rightarrow>
                                              if dict_get nd ''speaker'' \<noteq> JStr bot_name
                                              then abandoned
                                              else
                                                let msgs = send_dialogue_message bot_name channel_up nd in
                                                if \<not> sleepable (dict_get_default nd ''wait'' (JNum 2))
                                                then \<lparr>sent = msgs, advance_called = False,
                                                      state_after = sf\<rparr>
                                                else \<lparr>sent = msgs, advance_called = True,
                                                      state_after = snd (snd (advance_scene scenes now sf))\<rparr>
                                          | _ \<Rightarrow> abandoned))
                           | _ \<Rightarrow> abandoned))
            | _ \<Rightarrow> abandoned))"

text \<open>\<open>_check_and_participate\<close>: one tick.\<close>

definition check_and_participate :: "(string \<Rightarrow> store_file) \<Rightarrow> string \<Rightarrow> string \<Rightarrow> bool \<Rightarrow> store_file \<Rightarrow> tick_result" where
  "check_and_participate scenes now bot_name channel_up sf =
     (let nothing = \<lparr>sent = [], advance_called = False, state_after = sf\<rparr>;
          state = load_scene_state sf in
      if \<not> truthy state then nothing
      else (case state of
              JObj st \<Rightarrow>
                if \<not> truthy (dict_get st ''scene_active'') then nothing
                else if dict_get st ''next_speaker'' \<noteq> JStr bot_name then nothing
                else perform_dialogue_turn scenes now bot_name channel_up sf st
            | _ \<Rightarrow> nothing))"

section \<open>Notions used by the properties\<close>

text \<open>
  Whether a reader of the state file takes the scene to be active: the test
  \<open>state.get("scene_active")\<close> that \<open>advance_scene\<close> and the participants make.
\<close>

definition is_active :: "store_file \<Rightarrow> bool" where
  "is_active sf =
     (case load_scene_state sf of
        JObj st \<Rightarrow> truthy (dict_get st ''scene_active'')
      | _ \<Rightarrow> False)"

text \<open>
  The scenario graph of the specification: \<open>start\<close> (speaker A) continues to \<open>end\<close>
  (speaker B), which is terminal. It is stored under the scene name \<open>g\<close>.
\<close>

definition demo_graph :: dict where
  "demo_graph =
     [(''start'', JObj [(''speaker'', JStr ''A''), (''text'', JStr ''hi''), (''next'', JStr ''end'')]),
      (''end'', JObj [(''speaker'', JStr ''B''), (''text'', JStr ''bye'')])]"

definition demo_scenes :: "string \<Rightarrow> store_file" where
  "demo_scenes name = (if name = ''g'' then Content (JObj demo_graph) else Missing)"

text \<open>An active state of scene \<open>g\<close> at a given node, as \<open>start_scene\<close> writes it.\<close>

definition demo_state :: "string \<Rightarrow> string \<Rightarrow> store_file" where
  "demo_state node speaker =
     Content (JObj [(''scene'', JStr ''g''), (''current_node'', JStr node),
                    (''next_speaker'', JStr speaker), (''waiting_for_choice'', JBool False),
                    (''started_at'', JStr ''t0''), (''scene_active'', JBool True)])"

text \<open>
  The invariant of the Scene State record, over the record a reader loads (the empty
  record when the file is missing or unreadable). A field is present when \<open>.get\<close> does
  not give \<open>None\<close>. An active state names a scene and a current node that exists in the
  graph stored under that scene name, and has a next speaker; an inactive state has
  neither current node nor next speaker.
\<close>

definition node_exists :: "(string \<Rightarrow> store_file) \<Rightarrow> json \<Rightarrow> json \<Rightarrow> bool" where
  "node_exists scenes scene node =
     (case (scene, node) of
        (JStr sn, JStr cn) \<Rightarrow>
          (case scenes sn of Content (JObj g) \<Rightarrow> map_of g cn \<noteq> None | _ \<Rightarrow> False)
      | _ \<Rightarrow> False)"

definition state_invariant :: "(string \<Rightarrow> store_file) \<Rightarrow> store_file \<Rightarrow> bool" where
  "state_invariant scenes sf =
     (case load_scene_state sf of
        JObj st \<Rightarrow>
          if truthy (dict_get st ''scene_active'')
          then dict_get st ''scene'' \<noteq> JNull \<and> dict_get st ''current_node'' \<noteq> JNull \<and>
               dict_get st ''next_speaker'' \<noteq> JNull \<and>
               node_exists scenes (dict_get st ''scene'') (dict_get st ''current_node'')
          else dict_get st ''current_node'' = JNull \<and> dict_get st ''next_speaker'' = JNull
      | _ \<Rightarrow> False)"

text \<open>
  A branching scene, stored under the name \<open>g\<close>: \<open>start\<close> (speaker A) has the given
  choice mapping as its \<open>next\<close>; \<open>nodeY\<close> (speaker B) and \<open>nodeC\<close> (speaker C) are terminal.
\<close>

definition choice_graph :: "dict \<Rightarrow> dict" where
  "choice_graph choices =
     [(''start'', JObj [(''speaker'', JStr ''A''), (''text'', JStr ''pick''), (''next'', JObj choices)]),
      (''nodeY'', JObj [(''speaker'', JStr ''B''), (''text'', JStr ''yes'')]),
      (''nodeC'', JObj [(''speaker'', JStr ''C''), (''text'', JStr ''go on'')])]"

definition choice_scenes :: "dict \<Rightarrow> string \<Rightarrow> store_file" where
  "choice_scenes choices name = (if name = ''g'' then Content (JObj (choice_graph choices)) else Missing)"

text \<open>
  A run of advance calls, one for each time stamp of the list.
\<close>

fun advance_all :: "(string \<Rightarrow> store_file) \<Rightarrow> string list \<Rightarrow> store_file \<Rightarrow> store_file" where
  "advance_all scenes [] sf = sf"
| "advance_all scenes (now # later) sf =
     advance_all scenes later (snd (snd (advance_scene scenes now sf)))"

text \<open>
  Graphs on which advance cannot fail. A target is usable when it is a non-empty string
  naming a node; a node when it declares a speaker (as the code tests it, by truth
  value) and its \<open>next\<close> is absent, a usable target, or a non-empty choice mapping whose
  targets are all usable; a graph when it has a \<open>start\<close> node and all its nodes are usable.
\<close>

definition valid_target :: "dict \<Rightarrow> json \<Rightarrow> bool" where
  "valid_target g target =
     (case target of JStr t \<Rightarrow> t \<noteq> [] \<and> map_of g t \<noteq> None | _ \<Rightarrow> False)"

definition well_formed_node :: "dict \<Rightarrow> json \<Rightarrow> bool" where
  "well_formed_node g node =
     (case node of
        JObj nd \<Rightarrow>
          truthy (dict_get nd ''speaker'') \<and>
          (case dict_get nd ''next'' of
             JNull \<Rightarrow> True
           | JStr t \<Rightarrow> valid_target g (JStr t)
           | JObj choices \<Rightarrow> choices \<noteq> [] \<and> (\<forall>target \<in> snd ` set choices. valid_target g target)
           | _ \<Rightarrow> False)
      | _ \<Rightarrow> False)"

definition well_formed_graph :: "dict \<Rightarrow> bool" where
  "well_formed_graph g =
     (map_of g ''start'' \<noteq> None \<and> (\<forall>node \<in> snd ` set g. well_formed_node g node))"

text \<open>
  The links of a graph: from a node to its \<open>next\<close> node, and to every target of its
  choice mapping.
\<close>

definition edges :: "dict \<Rightarrow> (string \<times> string) set" where
  "edges g =
     {(n, t). \<exists>nd. map_of g n = Some (JObj nd) \<and>
        (dict_get nd ''next'' = JStr t \<or>
         (\<exists>choices label. dict_get nd ''next'' = JObj choices \<and> (label, JStr t) \<in> set choices))}"

text \<open>The state file holds an active state of scene \<open>sn\<close> whose current node is \<open>n\<close>.\<close>

definition at_node :: "string \<Rightarrow> string \<Rightarrow> store_file \<Rightarrow> bool" where
  "at_node sn n sf =
     (case load_scene_state sf of
        JObj st \<Rightarrow> truthy (dict_get st ''scene_active'') \<and>
                   dict_get st ''scene'' = JStr sn \<and> dict_get st ''current_node'' = JStr n
      | _ \<Rightarrow> False)"

text \<open>A cyclic scene (its only node continues to itself), stored under the name \<open>g\<close>.\<close>

definition loop_graph :: dict where
  "loop_graph =
     [(''start'', JObj [(''speaker'', JStr ''A''), (''text'', JStr ''again''), (''next'', JStr ''start'')])]"

definition loop_scenes :: "string \<Rightarrow> store_file" where
  "loop_scenes name = (if name = ''g'' then Content (JObj loop_graph) else Missing)"

text \<open>
  A scene that passes validation and has no link at all, but whose only node has an
  empty choice mapping; stored under the name \<open>g\<close>.
\<close>

definition stuck_graph :: dict where
  "stuck_graph =
     [(''start'', JObj [(''speaker'', JStr ''A''), (''text'', JStr ''hi''), (''next'', JObj [])])]"

definition stuck_scenes :: "string \<Rightarrow> store_file" where
  "stuck_scenes name = (if name = ''g'' then Content (JObj stuck_graph) else Missing)"

section \<open>Basic facts about dicts and the branches of advance\<close>

lemma map_of_dict_set: "map_of (dict_set k v d) = (map_of d)(k \<mapsto> v)"
  by (induction d) auto

lemma dict_get_dict_set: "dict_get (dict_set k v d) k' = (if k' = k then v else dict_get d k')"
  by (simp add: dict_get_def map_of_dict_set)

lemma dict_get_Nil: "dict_get [] k = JNull"
  by (simp add: dict_get_def)

lemma key_get_truthy:
  "key_get g k = Some v \<Longrightarrow> truthy v \<Longrightarrow> \<exists>cn. k = JStr cn \<and> map_of g cn = Some v"
  by (cases k) (auto simp: dict_get_def split: option.splits)

lemma start_scene_False_unchanged:
  "fst (start_scene scenes now n s sf) = False \<Longrightarrow> snd (start_scene scenes now n s sf) = sf"
  by (simp add: start_scene_def Let_def split: option.splits json.splits if_splits)

text \<open>The three kinds of outcome of the second half of advance.\<close>

lemma advance_from_cases:
  "advance_from now sf st g node_data = (r, l, sf') \<Longrightarrow>
     (l = SceneEnded \<and> r = None \<and> sf' = Content (JObj (ended_state now st))) \<or>
     (l = Advanced \<and> (\<exists>n nnd. r = Some (JObj nnd) \<and> map_of g n = Some (JObj nnd) \<and>
          truthy (dict_get nnd ''speaker'') \<and>
          sf' = Content (JObj (stepped_state (JStr n) (dict_get nnd ''speaker'') st)))) \<or>
     (log_level l = LError \<and> r = None \<and> sf' = sf)"
  by (auto simp: advance_from_def save_scene_state_def Let_def
           split: option.splits json.splits if_splits)
     metis

text \<open>
  Advance either finds no active scene, or fails before it has the current node, or
  reaches the second half with an active state record positioned at a node.
\<close>

lemma advance_scene_cases:
  "advance_scene scenes now sf = (r, l, sf') \<Longrightarrow>
     (l = NoActiveScene \<and> r = None \<and> sf' = sf \<and> \<not> is_active sf) \<or>
     (log_level l = LError \<and> r = None \<and> sf' = sf \<and>
        (\<forall>st. load_scene_state sf = JObj st \<longrightarrow> is_active sf)) \<or>
     (\<exists>st sn cn g node_data.
        load_scene_state sf = JObj st \<and> truthy (dict_get st ''scene_active'') \<and>
        dict_get st ''scene'' = JStr sn \<and> dict_get st ''current_node'' = JStr cn \<and>
        scenes sn = Content (JObj g) \<and> map_of g cn = Some node_data \<and>
        advance_from now sf st g node_data = (r, l, sf'))"
  by (auto simp: advance_scene_def is_active_def load_scene_data_def Let_def dict_get_Nil
         dest!: key_get_truthy
         split: option.splits json.splits if_splits store_file.splits)

lemma truthy_not_null: "truthy v \<Longrightarrow> v \<noteq> JNull"
  by auto

lemma advance_scene_at:
  assumes "load_scene_state sf = JObj st" "truthy (dict_get st ''scene_active'')"
    "dict_get st ''scene'' = JStr sn" "sn \<noteq> []"
    "dict_get st ''current_node'' = JStr cn" "cn \<noteq> []"
    "scenes sn = Content (JObj g)" "map_of g cn = Some (JObj nd)" "nd \<noteq> []"
  shows "advance_scene scenes now sf = advance_from now sf st g (JObj nd)"
proof -
  from assms(3) have "st \<noteq> []" by (auto simp: dict_get_Nil)
  moreover from assms(8) have "g \<noteq> []" by auto
  ultimately show ?thesis using assms
    by (simp add: advance_scene_def load_scene_data_def dict_get_def)
qed

lemma start_scene_cases:
  "start_scene scenes now n s sf = (False, sf) \<or>
   (\<exists>g nd. scenes n = Content (JObj g) \<and> map_of g s = Some (JObj nd) \<and>
      truthy (dict_get nd ''speaker'') \<and>
      start_scene scenes now n s sf =
        (True, Content (JObj [(''scene'', JStr n), (''current_node'', JStr s),
                          (''next_speaker'', dict_get nd ''speaker''),
                          (''waiting_for_choice'', JBool False),
                          (''started_at'', JStr now), (''scene_active'', JBool True)])))"
  by (simp add: start_scene_def load_scene_data_def save_scene_state_def Let_def
        split: option.splits json.splits store_file.splits)

lemma start_scene_invariant:
  assumes "state_invariant scenes sf"
  shows "state_invariant scenes (snd (start_scene scenes now n s sf))"
  using start_scene_cases [of scenes now n s sf]
proof (elim disjE exE conjE)
  fix g nd
  assume "scenes n = Content (JObj g)" "map_of g s = Some (JObj nd)"
      "truthy (dict_get nd ''speaker'')"
      "start_scene scenes now n s sf =
        (True, Content (JObj [(''scene'', JStr n), (''current_node'', JStr s),
                          (''next_speaker'', dict_get nd ''speaker''),
                          (''waiting_for_choice'', JBool False),
                          (''started_at'', JStr now), (''scene_active'', JBool True)]))"
  then show ?thesis
    by (auto simp: state_invariant_def node_exists_def dict_get_def)
qed (use assms in simp)

lemma stop_scene_invariant: "state_invariant scenes sf \<Longrightarrow> state_invariant scenes (snd (stop_scene now sf))"
  by (auto simp: stop_scene_def state_invariant_def save_scene_state_def stopped_state_def
        dict_get_dict_set Let_def split: json.splits)

lemma advance_scene_invariant: 
  assumes "state_invariant scenes sf" shows "state_invariant scenes (snd (snd (advance_scene scenes now sf)))"
proof -
  obtain r l sf' where a: "advance_scene scenes now sf = (r, l, sf')"
    by (cases "advance_scene scenes now sf")
  from advance_scene_cases [OF a] have "state_invariant scenes sf'"
  proof (elim disjE exE conjE)
    fix st sn cn g node_data
    assume st: "load_scene_state sf = JObj st" "truthy (dict_get st ''scene_active'')"
       "dict_get st ''scene'' = JStr sn" "scenes sn = Content (JObj g)"
      and af: "advance_from now sf st g node_data = (r, l, sf')"
    from advance_from_cases [OF af] st assms show ?thesis
      by (auto simp: state_invariant_def node_exists_def ended_state_def stepped_state_def dict_get_dict_set
            dest: truthy_not_null)
  qed (use assms in auto)
  with a show ?thesis by simp
qed

lemma demo_lookups:
  "demo_scenes ''g'' = Content (JObj demo_graph)"
  "map_of demo_graph ''start'' =
     Some (JObj [(''speaker'', JStr ''A''), (''text'', JStr ''hi''), (''next'', JStr ''end'')])"
  "map_of demo_graph ''end'' = Some (JObj [(''speaker'', JStr ''B''), (''text'', JStr ''bye'')])"
  "map_of demo_graph ''ghost'' = None"
  by (simp_all add: demo_scenes_def demo_graph_def)

lemma choice_lookups:
  "choice_scenes ch ''g'' = Content (JObj (choice_graph ch))"
  "map_of (choice_graph ch) ''start'' =
     Some (JObj [(''speaker'', JStr ''A''), (''text'', JStr ''pick''), (''next'', JObj ch)])"
  "map_of (choice_graph ch) ''nodeY'' = Some (JObj [(''speaker'', JStr ''B''), (''text'', JStr ''yes'')])"
  "map_of (choice_graph ch) ''nodeC'' = Some (JObj [(''speaker'', JStr ''C''), (''text'', JStr ''go on'')])"
  by (simp_all add: choice_scenes_def choice_graph_def)

subsection \<open>Walking a usable graph\<close>

lemma well_formed_lookup:
  "well_formed_graph g \<Longrightarrow> map_of g n = Some node \<Longrightarrow> well_formed_node g node"
  by (force simp: well_formed_graph_def dest: map_of_SomeD)

lemma well_formed_node_dict:
  "well_formed_node g node \<Longrightarrow> \<exists>nd. node = JObj nd \<and> nd \<noteq> [] \<and> truthy (dict_get nd ''speaker'')"
  by (cases node) (auto simp: well_formed_node_def dict_get_Nil)

lemma valid_targetD:
  "valid_target g target \<Longrightarrow> \<exists>t. target = JStr t \<and> t \<noteq> [] \<and> map_of g t \<noteq> None"
  by (cases target) (auto simp: valid_target_def)

lemma resolve_next_well_formed:
  assumes wf: "well_formed_node g (JObj nd)" and n: "map_of g n = Some (JObj nd)"
    and nx: "dict_get nd ''next'' \<noteq> JNull"
  shows "\<exists>t. resolve_next (dict_get nd ''next'') = Some (JStr t) \<and> t \<noteq> [] \<and>
             map_of g t \<noteq> None \<and> (n, t) \<in> edges g"
proof (cases "dict_get nd ''next''")
  case (JStr t)
  with wf have "t \<noteq> []" "map_of g t \<noteq> None"
    by (auto simp: well_formed_node_def valid_target_def)
  moreover from n JStr have "(n, t) \<in> edges g" by (auto simp: edges_def)
  ultimately show ?thesis using JStr by simp
next
  case (JObj choices)
  with wf have ne: "choices \<noteq> []" and all: "\<forall>target \<in> snd ` set choices. valid_target g target"
    by (auto simp: well_formed_node_def)
  obtain target where r: "resolve_next (JObj choices) = Some target"
    and m: "target \<in> snd ` set choices"
  proof (cases "map_of choices ''continue''")
    case None
    with ne that show ?thesis by (cases choices) auto
  next
    case (Some target)
    then have "(''continue'', target) \<in> set choices" by (rule map_of_SomeD)
    then have "target \<in> snd ` set choices" by force
    with Some that show ?thesis by simp
  qed
  from all m have "valid_target g target" by blast
  then obtain t where t: "target = JStr t" "t \<noteq> []" "map_of g t \<noteq> None"
    by (blast dest: valid_targetD)
  from m t(1) obtain label where "(label, JStr t) \<in> set choices" by auto
  with n JObj have "(n, t) \<in> edges g" by (auto simp: edges_def)
  with r t JObj show ?thesis by simp
qed (use wf nx in \<open>auto simp: well_formed_node_def\<close>)

lemma advance_step_well_formed:
  assumes sc: "scenes sn = Content (JObj g)" and sn: "sn \<noteq> []" and wf: "well_formed_graph g"
    and at: "at_node sn n sf" and n: "n \<noteq> []" "map_of g n \<noteq> None"
  shows "\<not> is_active (snd (snd (advance_scene scenes now sf))) \<or>
         (\<exists>m. (n, m) \<in> edges g \<and> m \<noteq> [] \<and> map_of g m \<noteq> None \<and>
              at_node sn m (snd (snd (advance_scene scenes now sf))))"
proof -
  from at obtain st where st: "load_scene_state sf = JObj st"
      "truthy (dict_get st ''scene_active'')" "dict_get st ''scene'' = JStr sn"
      "dict_get st ''current_node'' = JStr n"
    by (auto simp: at_node_def split: json.splits)
  from n(2) obtain node where node: "map_of g n = Some node" by auto
  with wf have wfn: "well_formed_node g node" by (rule well_formed_lookup)
  then obtain nd where nd: "node = JObj nd" "nd \<noteq> []"
    by (blast dest: well_formed_node_dict)
  from st(1,2,3) sn st(4) n(1) sc node[unfolded nd(1)] nd(2)
  have adv: "advance_scene scenes now sf = advance_from now sf st g (JObj nd)"
    by (rule advance_scene_at)
  show ?thesis
  proof (cases "dict_get nd ''next'' = JNull")
    case True
    with adv st(2) show ?thesis
      by (simp add: advance_from_def save_scene_state_def is_active_def ended_state_def
            dict_get_dict_set)
  next
    case False
    from resolve_next_well_formed [OF wfn[unfolded nd(1)] node[unfolded nd(1)] False]
    obtain t where t: "resolve_next (dict_get nd ''next'') = Some (JStr t)" "t \<noteq> []"
        "map_of g t \<noteq> None" "(n, t) \<in> edges g"
      by blast
    from t(3) obtain tnode where tnode: "map_of g t = Some tnode" by auto
    with wf have "well_formed_node g tnode" by (rule well_formed_lookup)
    then obtain tnd where tnd: "tnode = JObj tnd" "truthy (dict_get tnd ''speaker'')"
      by (blast dest: well_formed_node_dict)
    from adv False t(1,2) tnode tnd st(2,3)
    have "at_node sn t (snd (snd (advance_scene scenes now sf)))"
      by (simp add: advance_from_def save_scene_state_def at_node_def stepped_state_def
            dict_get_dict_set)
    with t show ?thesis by blast
  qed
qed


lemma edges_in_graph:
  assumes wf: "well_formed_graph g" and e: "(n, t) \<in> edges g"
  shows "n \<in> fst ` set g \<and> t \<in> fst ` set g"
proof -
  from e obtain nd where nd: "map_of g n = Some (JObj nd)"
    and nx: "dict_get nd ''next'' = JStr t \<or>
         (\<exists>choices label. dict_get nd ''next'' = JObj choices \<and> (label, JStr t) \<in> set choices)"
    by (auto simp: edges_def)
  from nd have n: "n \<in> fst ` set g" by (force dest: map_of_SomeD)
  from wf nd have w: "well_formed_node g (JObj nd)" by (rule well_formed_lookup)
  from nx have "valid_target g (JStr t)"
  proof
    assume "dict_get nd ''next'' = JStr t"
    with w show ?thesis by (simp add: well_formed_node_def)
  next
    assume "\<exists>choices label. dict_get nd ''next'' = JObj choices \<and> (label, JStr t) \<in> set choices"
    then obtain choices label where c: "dict_get nd ''next'' = JObj choices"
      "(label, JStr t) \<in> set choices" by blast
    with w show ?thesis by (force simp: well_formed_node_def)
  qed
  then have "map_of g t \<noteq> None" by (simp add: valid_target_def)
  then have "t \<in> fst ` set g" by (force dest: map_of_SomeD)
  with n show ?thesis ..
qed

lemma reachable_in_graph:
  assumes wf: "well_formed_graph g" and n: "n \<in> fst ` set g" and r: "(n, x) \<in> (edges g)\<^sup>*"
  shows "x \<in> fst ` set g"
  using r n by (induction rule: rtrancl_induct) (auto dest: edges_in_graph [OF wf])

lemma reachable_card_le:
  assumes wf: "well_formed_graph g" and n: "n \<in> fst ` set g"
  shows "finite {x. (n, x) \<in> (edges g)\<^sup>*}" and "card {x. (n, x) \<in> (edges g)\<^sup>*} \<le> length g"
proof -
  have sub: "{x. (n, x) \<in> (edges g)\<^sup>*} \<subseteq> fst ` set g"
    using reachable_in_graph [OF wf n] by blast
  then show "finite {x. (n, x) \<in> (edges g)\<^sup>*}" by (rule finite_subset) simp
  from sub have "card {x. (n, x) \<in> (edges g)\<^sup>*} \<le> card (fst ` set g)"
    by (rule card_mono [rotated]) simp
  also have "\<dots> \<le> card (set g)" by (rule card_image_le) simp
  also have "\<dots> \<le> length g" by (rule card_length)
  finally show "card {x. (n, x) \<in> (edges g)\<^sup>*} \<le> length g" .
qed

lemma acyclic_walk_ends:
  assumes sc: "scenes sn = Content (JObj g)" and sn: "sn \<noteq> []" and wf: "well_formed_graph g"
    and ac: "acyclic (edges g)"
  shows "at_node sn n sf \<Longrightarrow> n \<noteq> [] \<Longrightarrow> map_of g n \<noteq> None \<Longrightarrow>
         card {x. (n, x) \<in> (edges g)\<^sup>*} \<le> length ts \<Longrightarrow>
         \<exists>k \<le> card {x. (n, x) \<in> (edges g)\<^sup>*}. \<not> is_active (advance_all scenes (take k ts) sf)"
proof (induction "card {x. (n, x) \<in> (edges g)\<^sup>*}" arbitrary: n sf ts rule: less_induct)
  case less
  let ?R = "\<lambda>n. {x. (n, x) \<in> (edges g)\<^sup>*}"
  from less.prems(3) have ng: "n \<in> fst ` set g" by (force dest: map_of_SomeD)
  have fin: "finite (?R n)" using wf ng by (rule reachable_card_le)
  have "n \<in> ?R n" by simp
  with fin have pos: "0 < card (?R n)" by (auto simp: card_gt_0_iff)
  with less.prems(4) obtain now later where ts: "ts = now # later" by (cases ts) auto
  let ?sf' = "snd (snd (advance_scene scenes now sf))"
  have "\<not> is_active ?sf' \<or>
        (\<exists>m. (n, m) \<in> edges g \<and> m \<noteq> [] \<and> map_of g m \<noteq> None \<and> at_node sn m ?sf')"
    using sc sn wf less.prems(1-3) by (rule advance_step_well_formed)
  then show ?case
  proof
    assume "\<not> is_active ?sf'"
    then have "\<not> is_active (advance_all scenes (take 1 ts) sf)" by (simp add: ts)
    moreover from pos have "1 \<le> card (?R n)" by simp
    ultimately show ?thesis by blast
  next
    assume "\<exists>m. (n, m) \<in> edges g \<and> m \<noteq> [] \<and> map_of g m \<noteq> None \<and> at_node sn m ?sf'"
    then obtain m where m: "(n, m) \<in> edges g" "m \<noteq> []" "map_of g m \<noteq> None" "at_node sn m ?sf'"
      by blast
    have sub: "?R m \<subseteq> ?R n" using m(1) by (auto intro: converse_rtrancl_into_rtrancl)
    have "n \<notin> ?R m"
    proof
      assume "n \<in> ?R m"
      then have "(m, n) \<in> (edges g)\<^sup>*" by simp
      with m(1) have "(n, n) \<in> (edges g)\<^sup>+" by (rule rtrancl_into_trancl2)
      with ac show False by (simp add: acyclic_def)
    qed
    with sub \<open>n \<in> ?R n\<close> have "?R m \<subset> ?R n" by blast
    with fin have lt: "card (?R m) < card (?R n)" by (rule psubset_card_mono)
    with less.prems(4) have len: "card (?R m) \<le> length later" by (simp add: ts)
    from less.hyps [OF lt m(4) m(2) m(3) len]
    obtain k where k: "k \<le> card (?R m)" "\<not> is_active (advance_all scenes (take k later) ?sf')"
      by blast
    then have "\<not> is_active (advance_all scenes (take (Suc k) ts) sf)" by (simp add: ts)
    moreover from k(1) lt have "Suc k \<le> card (?R n)" by simp
    ultimately show ?thesis by blast
  qed
qed

lemma start_scene_well_formed:
  assumes sc: "scenes sn = Content (JObj g)" and wf: "well_formed_graph g"
  shows "at_node sn ''start'' (snd (start_scene scenes t0 sn ''start'' sf))"
proof -
  from wf obtain node where node: "map_of g ''start'' = Some node"
    by (auto simp: well_formed_graph_def)
  with wf have "well_formed_node g node" by (rule well_formed_lookup)
  then obtain nd where nd: "node = JObj nd" "truthy (dict_get nd ''speaker'')"
    by (blast dest: well_formed_node_dict)
  from node have "g \<noteq> []" by auto
  with sc node nd show ?thesis
    by (simp add: start_scene_def load_scene_data_def save_scene_state_def at_node_def dict_get_def)
qed

lemma advance_all_invariant:
  "state_invariant scenes sf \<Longrightarrow> state_invariant scenes (advance_all scenes ts sf)"
  by (induction ts arbitrary: sf) (auto intro: advance_scene_invariant)

lemma start_scene_well_formed_invariant:
  assumes sc: "scenes sn = Content (JObj g)" and wf: "well_formed_graph g"
  shows "state_invariant scenes (snd (start_scene scenes t0 sn ''start'' sf))"
proof -
  from wf obtain node where node: "map_of g ''start'' = Some node"
    by (auto simp: well_formed_graph_def)
  with wf have "well_formed_node g node" by (rule well_formed_lookup)
  then obtain nd where nd: "node = JObj nd" "truthy (dict_get nd ''speaker'')"
    by (blast dest: well_formed_node_dict)
  from nd(2) have "dict_get nd ''speaker'' \<noteq> JNull" by (rule truthy_not_null)
  moreover from node have "g \<noteq> []" by auto
  ultimately show ?thesis using sc node nd
    by (simp add: start_scene_def load_scene_data_def save_scene_state_def state_invariant_def
          node_exists_def dict_get_def)
qed

lemma at_node_is_active: "at_node sn n sf \<Longrightarrow> is_active sf"
  by (auto simp: at_node_def is_active_def split: json.splits)

lemma loop_lookups:
  "loop_scenes ''g'' = Content (JObj loop_graph)"
  "map_of loop_graph ''start'' =
     Some (JObj [(''speaker'', JStr ''A''), (''text'', JStr ''again''), (''next'', JStr ''start'')])"
  by (simp_all add: loop_scenes_def loop_graph_def)

lemma loop_graph_well_formed: "well_formed_graph loop_graph"
  by (simp add: well_formed_graph_def well_formed_node_def valid_target_def loop_graph_def
        dict_get_def)

lemma loop_graph_cyclic: "\<not> acyclic (edges loop_graph)"
proof -
  have "(''start'', ''start'') \<in> edges loop_graph"
    by (simp add: edges_def loop_graph_def dict_get_def)
  then have "(''start'', ''start'') \<in> (edges loop_graph)\<^sup>+" ..
  then show ?thesis by (auto simp: acyclic_def)
qed

lemma loop_step:
  assumes "at_node ''g'' ''start'' sf"
  shows "at_node ''g'' ''start'' (snd (snd (advance_scene loop_scenes now sf)))"
proof -
  have "\<not> is_active (snd (snd (advance_scene loop_scenes now sf))) \<or>
        (\<exists>m. (''start'', m) \<in> edges loop_graph \<and> m \<noteq> [] \<and> map_of loop_graph m \<noteq> None \<and>
             at_node ''g'' m (snd (snd (advance_scene loop_scenes now sf))))"
    using loop_lookups(1) _ loop_graph_well_formed assms
    by (rule advance_step_well_formed) (simp_all add: loop_lookups)
  moreover have "m = ''start''" if "map_of loop_graph m \<noteq> None" for m
    using that by (simp add: loop_graph_def split: if_splits)
  moreover have "is_active (snd (snd (advance_scene loop_scenes now sf)))"
  proof -
    from assms obtain st where st: "load_scene_state sf = JObj st"
      "truthy (dict_get st ''scene_active'')" "dict_get st ''scene'' = JStr ''g''"
      "dict_get st ''current_node'' = JStr ''start''"
      by (auto simp: at_node_def split: json.splits)
    let ?nd = "[(''speaker'', JStr ''A''), (''text'', JStr ''again''), (''next'', JStr ''start'')]"
    have nd: "dict_get ?nd ''next'' = JStr ''start''" "dict_get ?nd ''speaker'' = JStr ''A''"
      by (simp_all add: dict_get_def)
    have "advance_scene loop_scenes now sf = advance_from now sf st loop_graph (JObj ?nd)"
      using st(1,2,3) _ st(4) _ loop_lookups by (rule advance_scene_at) simp_all
    with st(2) show ?thesis
      by (simp add: advance_from_def Let_def nd loop_lookups save_scene_state_def is_active_def
            stepped_state_def dict_get_dict_set)
  qed
  ultimately show ?thesis by auto
qed

lemma loop_forever:
  "at_node ''g'' ''start'' sf \<Longrightarrow> at_node ''g'' ''start'' (advance_all loop_scenes ts sf)"
  by (induction ts arbitrary: sf) (auto intro: loop_step)

lemma demo_graph_well_formed: "well_formed_graph demo_graph"
  by (simp add: well_formed_graph_def well_formed_node_def valid_target_def demo_graph_def
        dict_get_def)

lemma demo_graph_acyclic: "acyclic (edges demo_graph)"
proof -
  have "edges demo_graph = {(''start'', ''end'')}"
    by (auto simp: edges_def demo_graph_def dict_get_def split: if_splits)
  moreover have "acyclic ({} :: (string \<times> string) set)" by (simp add: acyclic_def)
  ultimately show ?thesis by simp
qed

lemma stuck_edges: "edges stuck_graph = {}"
  by (auto simp: edges_def stuck_graph_def dict_get_def split: if_splits)

subsection \<open>The fields of the records written\<close>




lemma stopped_state_fields:
  "dict_get (stopped_state now st) ''scene_active'' = JBool False"
  "dict_get (stopped_state now st) ''current_node'' = JNull"
  "dict_get (stopped_state now st) ''next_speaker'' = JNull"
  "dict_get (stopped_state now st) ''stopped_at'' = JStr now"
  "k \<notin> {''scene_active'', ''current_node'', ''next_speaker'', ''stopped_at''} \<Longrightarrow>
     dict_get (stopped_state now st) k = dict_get st k"
  by (simp_all add: stopped_state_def dict_get_dict_set)

lemma stopped_state_not_Nil: "stopped_state now st \<noteq> []"
  by (cases st) (auto simp: stopped_state_def)

section \<open>Properties of the coordinator\<close>

text \<open>
  C10. A state file that is missing or cannot be parsed is read as the empty state and
  never as an error: \<open>load_scene_state\<close> returns the empty dict, the status reports
  \<open>active = False\<close>, advance reports that no scene is active and writes nothing, and
  stop succeeds without writing.
\<close>

theorem unreadable_state_is_empty:
  "sf = Missing \<or> sf = Corrupt \<Longrightarrow>
     load_scene_state sf = JObj [] \<and>
     get_scene_status sf = [(''active'', JBool False)] \<and>
     advance_scene scenes now sf = (None, NoActiveScene, sf) \<and>
     stop_scene now sf = (True, sf)"
  by (auto simp: get_scene_status_def advance_scene_def stop_scene_def)

theorem unreadable_state_is_empty_witness:
  "load_scene_state Corrupt = JObj [] \<and>
   get_scene_status Corrupt = [(''active'', JBool False)] \<and>
   advance_scene demo_scenes ''t1'' Corrupt = (None, NoActiveScene, Corrupt) \<and>
   stop_scene ''t1'' Corrupt = (True, Corrupt)"
  using unreadable_state_is_empty [of Corrupt demo_scenes "''t1''"] by simp

text \<open>
  C6. On an idle state (no state record, or a record whose \<open>scene_active\<close> is false)
  advance is a no-op: it returns \<open>None\<close>, logs that there is no active scene, and leaves
  the state file as it was.
\<close>

theorem advance_idle_is_noop:
  assumes "load_scene_state sf = JObj st" and "\<not> truthy (dict_get st ''scene_active'')"
  shows "advance_scene scenes now sf = (None, NoActiveScene, sf)"
  using assms by (auto simp: advance_scene_def)

theorem advance_idle_is_noop_witness:
  "advance_scene demo_scenes ''t1''
     (Content (JObj [(''scene'', JStr ''g''), (''scene_active'', JBool False)])) =
   (None, NoActiveScene, Content (JObj [(''scene'', JStr ''g''), (''scene_active'', JBool False)]))"
  using advance_idle_is_noop
          [of "Content (JObj [(''scene'', JStr ''g''), (''scene_active'', JBool False)])"
              "[(''scene'', JStr ''g''), (''scene_active'', JBool False)]" demo_scenes "''t1''"]
  by (simp add: dict_get_def)

text \<open>
  C3. A start that fails (it returns \<open>False\<close>) and an advance that fails (it logs an
  error and returns \<open>None\<close>) leave the state file exactly as it was.
\<close>

theorem failure_leaves_state_untouched:
  "(fst (start_scene scenes now n s sf) = False \<longrightarrow>
      snd (start_scene scenes now n s sf) = sf) \<and>
   (log_level (fst (snd (advance_scene scenes now' sf))) = LError \<longrightarrow>
      fst (advance_scene scenes now' sf) = None \<and>
      snd (snd (advance_scene scenes now' sf)) = sf)"
proof (intro conjI impI)
  assume "fst (start_scene scenes now n s sf) = False"
  then show "snd (start_scene scenes now n s sf) = sf"
    by (rule start_scene_False_unchanged)
next
  obtain r l sf' where a: "advance_scene scenes now' sf = (r, l, sf')"
    by (cases "advance_scene scenes now' sf")
  assume e: "log_level (fst (snd (advance_scene scenes now' sf))) = LError"
  from advance_scene_cases [OF a] advance_from_cases e a
  show "fst (advance_scene scenes now' sf) = None" by fastforce
  from advance_scene_cases [OF a] advance_from_cases e a
  show "snd (snd (advance_scene scenes now' sf)) = sf" by fastforce
qed

theorem failure_leaves_state_untouched_witness:
  "fst (start_scene demo_scenes ''t1'' ''g'' ''nowhere'' (demo_state ''ghost'' ''A'')) = False \<and>
   snd (start_scene demo_scenes ''t1'' ''g'' ''nowhere'' (demo_state ''ghost'' ''A'')) =
     demo_state ''ghost'' ''A'' \<and>
   log_level (fst (snd (advance_scene demo_scenes ''t2'' (demo_state ''ghost'' ''A'')))) = LError \<and>
   fst (advance_scene demo_scenes ''t2'' (demo_state ''ghost'' ''A'')) = None \<and>
   snd (snd (advance_scene demo_scenes ''t2'' (demo_state ''ghost'' ''A''))) =
     demo_state ''ghost'' ''A''"
proof -
  have s: "fst (start_scene demo_scenes ''t1'' ''g'' ''nowhere'' (demo_state ''ghost'' ''A'')) = False"
    by (simp add: start_scene_def load_scene_data_def demo_scenes_def demo_graph_def)
  have a: "log_level (fst (snd (advance_scene demo_scenes ''t2'' (demo_state ''ghost'' ''A'')))) = LError"
    by (simp add: advance_scene_def load_scene_data_def demo_scenes_def demo_graph_def
          demo_state_def dict_get_def)
  from s a failure_leaves_state_untouched
         [of demo_scenes "''t1''" "''g''" "''nowhere''" "demo_state ''ghost'' ''A''" "''t2''"]
  show ?thesis by blast
qed

text \<open>
  C5. A successful start writes, whatever the state was before, exactly the record with
  the scene name, \<open>current_node\<close> the starting node, \<open>next_speaker\<close> the speaker declared
  by the starting node, \<open>waiting_for_choice\<close> false, \<open>started_at\<close> the current time and
  \<open>scene_active\<close> true. Nothing of the previous record is kept: the result is the same
  for every previous state, and the status read back has no \<open>ended_at\<close> or \<open>stopped_at\<close>.
\<close>

theorem start_scene_overwrites:
  assumes "start_scene scenes now scene_name starting_node sf = (True, sf')"
  shows "\<exists>g nd. scenes scene_name = Content (JObj g) \<and>
     map_of g starting_node = Some (JObj nd) \<and>
     sf' = Content (JObj [(''scene'', JStr scene_name), (''current_node'', JStr starting_node),
                          (''next_speaker'', dict_get nd ''speaker''),
                          (''waiting_for_choice'', JBool False),
                          (''started_at'', JStr now), (''scene_active'', JBool True)]) \<and>
     get_scene_status sf' =
        [(''active'', JBool True), (''scene'', JStr scene_name),
         (''current_node'', JStr starting_node),
         (''next_speaker'', dict_get nd ''speaker''), (''waiting_for_choice'', JBool False),
         (''started_at'', JStr now), (''ended_at'', JNull), (''stopped_at'', JNull)] \<and>
     (\<forall>prior. start_scene scenes now scene_name starting_node prior = (True, sf'))"
proof -
  from assms obtain g nd where
    g: "scenes scene_name = Content (JObj g)" and nd: "map_of g starting_node = Some (JObj nd)"
    and sp: "truthy (dict_get nd ''speaker'')" and ne: "g \<noteq> []"
    by (auto simp: start_scene_def load_scene_data_def Let_def
          split: option.splits json.splits if_splits store_file.splits)
  have st: "start_scene scenes now scene_name starting_node prior =
      (True, Content (JObj [(''scene'', JStr scene_name), (''current_node'', JStr starting_node),
                          (''next_speaker'', dict_get nd ''speaker''),
                          (''waiting_for_choice'', JBool False),
                          (''started_at'', JStr now), (''scene_active'', JBool True)]))" for prior
    using g nd sp ne by (simp add: start_scene_def load_scene_data_def save_scene_state_def)
  from st [of sf] assms
  have sf': "sf' = Content (JObj [(''scene'', JStr scene_name), (''current_node'', JStr starting_node),
                          (''next_speaker'', dict_get nd ''speaker''),
                          (''waiting_for_choice'', JBool False),
                          (''started_at'', JStr now), (''scene_active'', JBool True)])"
    by simp
  have "get_scene_status sf' =
        [(''active'', JBool True), (''scene'', JStr scene_name),
         (''current_node'', JStr starting_node),
         (''next_speaker'', dict_get nd ''speaker''), (''waiting_for_choice'', JBool False),
         (''started_at'', JStr now), (''ended_at'', JNull), (''stopped_at'', JNull)]"
    unfolding sf' by (simp add: get_scene_status_def dict_get_def dict_get_default_def)
  with g nd sf' st show ?thesis by blast
qed

theorem start_scene_overwrites_witness:
  "start_scene demo_scenes ''t0'' ''g'' ''start'' (demo_state ''end'' ''B'') =
     (True, demo_state ''start'' ''A'') \<and>
   get_scene_status (demo_state ''start'' ''A'') =
     [(''active'', JBool True), (''scene'', JStr ''g''), (''current_node'', JStr ''start''),
      (''next_speaker'', JStr ''A''), (''waiting_for_choice'', JBool False),
      (''started_at'', JStr ''t0''), (''ended_at'', JNull), (''stopped_at'', JNull)] \<and>
   (\<forall>prior. start_scene demo_scenes ''t0'' ''g'' ''start'' prior = (True, demo_state ''start'' ''A''))"
proof -
  have h: "start_scene demo_scenes ''t0'' ''g'' ''start'' (demo_state ''end'' ''B'') =
             (True, demo_state ''start'' ''A'')"
    by (simp add: start_scene_def load_scene_data_def demo_scenes_def demo_graph_def
          demo_state_def dict_get_def save_scene_state_def)
  from start_scene_overwrites [OF h] obtain g nd where
    "demo_scenes ''g'' = Content (JObj g)" "map_of g ''start'' = Some (JObj nd)"
    "get_scene_status (demo_state ''start'' ''A'') =
        [(''active'', JBool True), (''scene'', JStr ''g''), (''current_node'', JStr ''start''),
         (''next_speaker'', dict_get nd ''speaker''), (''waiting_for_choice'', JBool False),
         (''started_at'', JStr ''t0''), (''ended_at'', JNull), (''stopped_at'', JNull)]"
    "\<forall>prior. start_scene demo_scenes ''t0'' ''g'' ''start'' prior = (True, demo_state ''start'' ''A'')"
    by blast
  moreover from this have "dict_get nd ''speaker'' = JStr ''A''"
    by (auto simp: demo_scenes_def demo_graph_def dict_get_def)
  ultimately show ?thesis using h by simp
qed

text \<open>
  C8, as stated, fails for some prior contents of the state file: when the file holds a
  non-empty JSON document that is not a mapping, the first item assignment of stop
  raises, and stop returns failure.
\<close>

theorem stop_scene_fails_on_non_mapping:
  "stop_scene ''t1'' (Content (JArr [JNum 1])) = (False, Content (JArr [JNum 1]))"
  by (simp add: stop_scene_def)

text \<open>
  C8, amended. On every state record that is a non-empty mapping, stopping twice in a
  row returns success both times, and each time the record written has \<open>scene_active\<close>
  false, \<open>current_node\<close> and \<open>next_speaker\<close> cleared and \<open>stopped_at\<close> stamped with the time
  of that call, all other fields being kept. When there is no state record (the file is
  missing or unreadable, or holds an empty or otherwise falsy document), stop returns
  success both times and writes nothing. On a non-empty document that is not a mapping
  stop returns failure and writes nothing.
\<close>

theorem stop_scene_idempotent:
  "(load_scene_state sf = JObj st \<and> st \<noteq> [] \<longrightarrow>
      (\<exists>st1 st2.
         stop_scene t1 sf = (True, Content (JObj st1)) \<and>
         stop_scene t2 (Content (JObj st1)) = (True, Content (JObj st2)) \<and>
         dict_get st1 ''scene_active'' = JBool False \<and> dict_get st1 ''current_node'' = JNull \<and>
         dict_get st1 ''next_speaker'' = JNull \<and> dict_get st1 ''stopped_at'' = JStr t1 \<and>
         dict_get st2 ''scene_active'' = JBool False \<and> dict_get st2 ''current_node'' = JNull \<and>
         dict_get st2 ''next_speaker'' = JNull \<and> dict_get st2 ''stopped_at'' = JStr t2 \<and>
         (\<forall>k. k \<notin> {''scene_active'', ''current_node'', ''next_speaker'', ''stopped_at''} \<longrightarrow>
              dict_get st1 k = dict_get st k \<and> dict_get st2 k = dict_get st k))) \<and>
   (\<not> truthy (load_scene_state sf) \<longrightarrow>
      stop_scene t1 sf = (True, sf) \<and> stop_scene t2 (snd (stop_scene t1 sf)) = (True, sf) \<and>
      \<not> is_active sf) \<and>
   (truthy (load_scene_state sf) \<and> (\<forall>d. load_scene_state sf \<noteq> JObj d) \<longrightarrow>
      stop_scene t1 sf = (False, sf))"
proof (rule conjI [OF impI conjI [OF impI impI]])
  assume a: "load_scene_state sf = JObj st \<and> st \<noteq> []"
  let ?st1 = "stopped_state t1 st" and ?st2 = "stopped_state t2 (stopped_state t1 st)"
  from a have 1: "stop_scene t1 sf = (True, Content (JObj ?st1))"
    by (simp add: stop_scene_def save_scene_state_def)
  have 2: "stop_scene t2 (Content (JObj ?st1)) = (True, Content (JObj ?st2))"
    by (simp add: stop_scene_def save_scene_state_def stopped_state_not_Nil)
  have 3: "\<forall>k. k \<notin> {''scene_active'', ''current_node'', ''next_speaker'', ''stopped_at''} \<longrightarrow>
              dict_get ?st1 k = dict_get st k \<and> dict_get ?st2 k = dict_get st k"
    by (simp add: stopped_state_fields(5))
  show "\<exists>st1 st2.
         stop_scene t1 sf = (True, Content (JObj st1)) \<and>
         stop_scene t2 (Content (JObj st1)) = (True, Content (JObj st2)) \<and>
         dict_get st1 ''scene_active'' = JBool False \<and> dict_get st1 ''current_node'' = JNull \<and>
         dict_get st1 ''next_speaker'' = JNull \<and> dict_get st1 ''stopped_at'' = JStr t1 \<and>
         dict_get st2 ''scene_active'' = JBool False \<and> dict_get st2 ''current_node'' = JNull \<and>
         dict_get st2 ''next_speaker'' = JNull \<and> dict_get st2 ''stopped_at'' = JStr t2 \<and>
         (\<forall>k. k \<notin> {''scene_active'', ''current_node'', ''next_speaker'', ''stopped_at''} \<longrightarrow>
              dict_get st1 k = dict_get st k \<and> dict_get st2 k = dict_get st k)"
    apply (rule exI [of _ ?st1], rule exI [of _ ?st2])
    using 1 2 3 by (simp add: stopped_state_fields(1-4))
next
  assume n: "\<not> truthy (load_scene_state sf)"
  then show "stop_scene t1 sf = (True, sf) \<and> stop_scene t2 (snd (stop_scene t1 sf)) = (True, sf) \<and>
      \<not> is_active sf"
    by (auto simp: stop_scene_def is_active_def dict_get_Nil split: json.splits)
next
  assume "truthy (load_scene_state sf) \<and> (\<forall>d. load_scene_state sf \<noteq> JObj d)"
  then show "stop_scene t1 sf = (False, sf)"
    by (auto simp: stop_scene_def split: json.splits)
qed

theorem stop_scene_idempotent_witness:
  "stop_scene ''t1'' (demo_state ''start'' ''A'') =
     (True, Content (JObj [(''scene'', JStr ''g''), (''current_node'', JNull),
                           (''next_speaker'', JNull), (''waiting_for_choice'', JBool False),
                           (''started_at'', JStr ''t0''), (''scene_active'', JBool False),
                           (''stopped_at'', JStr ''t1'')])) \<and>
   stop_scene ''t2'' (snd (stop_scene ''t1'' (demo_state ''start'' ''A''))) =
     (True, Content (JObj [(''scene'', JStr ''g''), (''current_node'', JNull),
                           (''next_speaker'', JNull), (''waiting_for_choice'', JBool False),
                           (''started_at'', JStr ''t0''), (''scene_active'', JBool False),
                           (''stopped_at'', JStr ''t2'')])) \<and>
   stop_scene ''t1'' Missing = (True, Missing) \<and>
   stop_scene ''t2'' (snd (stop_scene ''t1'' Missing)) = (True, Missing) \<and>
   \<not> is_active Missing \<and>
   stop_scene ''t1'' (Content (JStr ''x'')) = (False, Content (JStr ''x''))"
  using stop_scene_idempotent [of "demo_state ''start'' ''A''"
               "[(''scene'', JStr ''g''), (''current_node'', JStr ''start''),
                 (''next_speaker'', JStr ''A''), (''waiting_for_choice'', JBool False),
                 (''started_at'', JStr ''t0''), (''scene_active'', JBool True)]" "''t1''" "''t2''"]
        stop_scene_idempotent [of Missing "[]" "''t1''" "''t2''"]
        stop_scene_idempotent [of "Content (JStr ''x'')" "[]" "''t1''" "''t2''"]
  by (simp add: demo_state_def stop_scene_def save_scene_state_def stopped_state_def)

text \<open>
  C2. Start, advance and stop preserve the state invariant: from a state file that
  satisfies it, each of them leaves a state file that satisfies it, whether the
  operation succeeds, fails or has nothing to do.
\<close>

theorem operations_preserve_state_invariant:
  assumes "state_invariant scenes sf"
  shows "state_invariant scenes (snd (start_scene scenes now n s sf)) \<and>
         state_invariant scenes (snd (snd (advance_scene scenes now sf))) \<and>
         state_invariant scenes (snd (stop_scene now sf))"
  using assms by (simp add: start_scene_invariant advance_scene_invariant stop_scene_invariant)

theorem operations_preserve_state_invariant_witness:
  "state_invariant demo_scenes (demo_state ''start'' ''A'') \<and>
   state_invariant demo_scenes (snd (start_scene demo_scenes ''t1'' ''g'' ''end'' (demo_state ''start'' ''A''))) \<and>
   state_invariant demo_scenes (snd (snd (advance_scene demo_scenes ''t1'' (demo_state ''start'' ''A'')))) \<and>
   state_invariant demo_scenes (snd (stop_scene ''t1'' (demo_state ''start'' ''A'')))"
proof -
  have h: "state_invariant demo_scenes (demo_state ''start'' ''A'')"
    by (simp add: state_invariant_def node_exists_def demo_state_def dict_get_def demo_lookups)
  from h operations_preserve_state_invariant [OF h] show ?thesis by simp
qed

text \<open>
  C4. When the current node of an active state has a choice mapping as \<open>next\<close>, advance
  moves to the target of the key \<open>continue\<close> if the mapping has that key, and otherwise
  to the target of the mapping's first entry; the new state has that node as
  \<open>current_node\<close>. The target is taken to be a node of the graph with a speaker.
\<close>

theorem advance_prefers_continue:
  assumes "load_scene_state sf = JObj st" "truthy (dict_get st ''scene_active'')"
    "dict_get st ''scene'' = JStr sn" "sn \<noteq> []"
    "dict_get st ''current_node'' = JStr cn" "cn \<noteq> []"
    "scenes sn = Content (JObj g)" "map_of g cn = Some (JObj nd)"
    "dict_get nd ''next'' = JObj choices"
    "map_of choices ''continue'' = Some (JStr t) \<or>
     (map_of choices ''continue'' = None \<and> (\<exists>label rest. choices = (label, JStr t) # rest))"
    "t \<noteq> []" "map_of g t = Some (JObj tnd)" "truthy (dict_get tnd ''speaker'')"
  shows "advance_scene scenes now sf =
           (Some (JObj tnd), Advanced,
            Content (JObj (stepped_state (JStr t) (dict_get tnd ''speaker'') st))) \<and>
         dict_get (stepped_state (JStr t) (dict_get tnd ''speaker'') st) ''current_node'' = JStr t"
proof -
  from assms(9) have "nd \<noteq> []" by (auto simp: dict_get_Nil)
  with assms(1-8) have "advance_scene scenes now sf = advance_from now sf st g (JObj nd)"
    by (rule advance_scene_at)
  moreover have "resolve_next (JObj choices) = Some (JStr t)"
    using assms(10) by auto
  ultimately show ?thesis using assms(9,11-13)
    by (simp add: advance_from_def save_scene_state_def stepped_state_def dict_get_dict_set)
qed

theorem advance_prefers_continue_witness:
  "advance_scene (choice_scenes [(''yes'', JStr ''nodeY''), (''continue'', JStr ''nodeC'')]) ''t1''
       (demo_state ''start'' ''A'') =
     (Some (JObj [(''speaker'', JStr ''C''), (''text'', JStr ''go on'')]), Advanced,
      demo_state ''nodeC'' ''C'') \<and>
   advance_scene (choice_scenes [(''yes'', JStr ''nodeY''), (''no'', JStr ''nodeC'')]) ''t1''
       (demo_state ''start'' ''A'') =
     (Some (JObj [(''speaker'', JStr ''B''), (''text'', JStr ''yes'')]), Advanced,
      demo_state ''nodeY'' ''B'')"
  using advance_prefers_continue [where sf = "demo_state ''start'' ''A''" and sn = "''g''" and cn = "''start''"
               and scenes = "choice_scenes [(''yes'', JStr ''nodeY''), (''continue'', JStr ''nodeC'')]"
               and g = "choice_graph [(''yes'', JStr ''nodeY''), (''continue'', JStr ''nodeC'')]"
               and choices = "[(''yes'', JStr ''nodeY''), (''continue'', JStr ''nodeC'')]"
               and st = "[(''scene'', JStr ''g''), (''current_node'', JStr ''start''),
                    (''next_speaker'', JStr ''A''), (''waiting_for_choice'', JBool False),
                    (''started_at'', JStr ''t0''), (''scene_active'', JBool True)]"
               and nd = "[(''speaker'', JStr ''A''), (''text'', JStr ''pick''),
                    (''next'', JObj [(''yes'', JStr ''nodeY''), (''continue'', JStr ''nodeC'')])]"
               and t = "''nodeC''" and tnd = "[(''speaker'', JStr ''C''), (''text'', JStr ''go on'')]"
               and now = "''t1''"]
        advance_prefers_continue [where sf = "demo_state ''start'' ''A''" and sn = "''g''" and cn = "''start''"
               and scenes = "choice_scenes [(''yes'', JStr ''nodeY''), (''no'', JStr ''nodeC'')]"
               and g = "choice_graph [(''yes'', JStr ''nodeY''), (''no'', JStr ''nodeC'')]"
               and choices = "[(''yes'', JStr ''nodeY''), (''no'', JStr ''nodeC'')]"
               and st = "[(''scene'', JStr ''g''), (''current_node'', JStr ''start''),
                    (''next_speaker'', JStr ''A''), (''waiting_for_choice'', JBool False),
                    (''started_at'', JStr ''t0''), (''scene_active'', JBool True)]"
               and nd = "[(''speaker'', JStr ''A''), (''text'', JStr ''pick''),
                    (''next'', JObj [(''yes'', JStr ''nodeY''), (''no'', JStr ''nodeC'')])]"
               and t = "''nodeY''" and tnd = "[(''speaker'', JStr ''B''), (''text'', JStr ''yes'')]"
               and now = "''t1''"]
  by (simp add: demo_state_def choice_lookups dict_get_def stepped_state_def)




text \<open>
  C7, as stated, fails. The scene below passes validation and has no cycle (it has no
  link), and start succeeds on it; but its node has an empty choice mapping, so every
  advance fails and the scene is still active after one call (the node count) and after
  any further call.
\<close>

theorem validated_acyclic_scene_never_ends:
  "validate_scene stuck_scenes ''g'' \<and> acyclic (edges stuck_graph) \<and> length stuck_graph = 1 \<and>
   fst (start_scene stuck_scenes ''t0'' ''g'' ''start'' Missing) \<and>
   is_active (advance_all stuck_scenes []
                (snd (start_scene stuck_scenes ''t0'' ''g'' ''start'' Missing))) \<and>
   is_active (advance_all stuck_scenes [''t1'']
                (snd (start_scene stuck_scenes ''t0'' ''g'' ''start'' Missing))) \<and>
   is_active (advance_all stuck_scenes [''t1'', ''t2'', ''t3'']
                (snd (start_scene stuck_scenes ''t0'' ''g'' ''start'' Missing)))"
proof -
  have v: "validate_scene stuck_scenes ''g''"
    by (simp add: validate_scene_def node_passes_def load_scene_data_def stuck_scenes_def
          stuck_graph_def dict_get_def)
  have a: "acyclic (edges stuck_graph)" by (simp add: stuck_edges acyclic_def)
  have s: "start_scene stuck_scenes ''t0'' ''g'' ''start'' Missing = (True, demo_state ''start'' ''A'')"
    by (simp add: start_scene_def load_scene_data_def stuck_scenes_def stuck_graph_def
          dict_get_def save_scene_state_def demo_state_def)
  have n: "advance_scene stuck_scenes now (demo_state ''start'' ''A'') =
             (None, NextNodeNotFound, demo_state ''start'' ''A'')" for now
    by (simp add: advance_scene_def advance_from_def load_scene_data_def stuck_scenes_def
          stuck_graph_def dict_get_def demo_state_def Let_def)
  have i: "is_active (demo_state ''start'' ''A'')"
    by (simp add: is_active_def demo_state_def dict_get_def)
  from v a s n i show ?thesis by (simp add: stuck_graph_def)
qed

text \<open>
  C7, amended. On a usable graph, from the state written by start at \<open>start\<close>: if the
  graph has no cycle, the scene stops being active within at most as many advance calls
  as the graph has nodes; whatever the graph, the state after any number of calls
  satisfies the state invariant; and on a cyclic graph the calls can go on for ever
  with the scene active, as on the one-node loop.
\<close>

theorem advance_reaches_end:
  assumes sc: "scenes sn = Content (JObj g)" and sn: "sn \<noteq> []" and wf: "well_formed_graph g"
  shows "(acyclic (edges g) \<longrightarrow>
            (\<forall>ts. length g \<le> length ts \<longrightarrow>
               (\<exists>k \<le> length g.
                  \<not> is_active (advance_all scenes (take k ts)
                                 (snd (start_scene scenes t0 sn ''start'' sf)))))) \<and>
         (\<forall>ts. state_invariant scenes
                 (advance_all scenes ts (snd (start_scene scenes t0 sn ''start'' sf)))) \<and>
         (well_formed_graph loop_graph \<and> \<not> acyclic (edges loop_graph) \<and>
          (\<forall>ts. is_active (advance_all loop_scenes ts
                            (snd (start_scene loop_scenes t0 ''g'' ''start'' sf))) \<and>
                state_invariant loop_scenes
                  (advance_all loop_scenes ts
                     (snd (start_scene loop_scenes t0 ''g'' ''start'' sf)))))"
proof (intro conjI impI allI)
  fix ts :: "string list"
  let ?s0 = "snd (start_scene scenes t0 sn ''start'' sf)"
  assume ac: "acyclic (edges g)" and len: "length g \<le> length ts"
  from wf have st: "map_of g ''start'' \<noteq> None" by (simp add: well_formed_graph_def)
  then have ing: "''start'' \<in> fst ` set g" by (force dest: map_of_SomeD)
  have at: "at_node sn ''start'' ?s0" using sc wf by (rule start_scene_well_formed)
  have c: "card {x. (''start'', x) \<in> (edges g)\<^sup>*} \<le> length g"
    using wf ing by (rule reachable_card_le)
  with len have "card {x. (''start'', x) \<in> (edges g)\<^sup>*} \<le> length ts" by simp
  with acyclic_walk_ends [where scenes = scenes, OF sc sn wf ac at _ st]
  obtain k where "k \<le> card {x. (''start'', x) \<in> (edges g)\<^sup>*}"
      "\<not> is_active (advance_all scenes (take k ts) ?s0)"
    by auto
  with c show "\<exists>k \<le> length g. \<not> is_active (advance_all scenes (take k ts) ?s0)"
    by (meson le_trans)
next
  fix ts
  show "state_invariant scenes (advance_all scenes ts (snd (start_scene scenes t0 sn ''start'' sf)))"
    using sc wf by (intro advance_all_invariant start_scene_well_formed_invariant)
next
  show "well_formed_graph loop_graph" by (rule loop_graph_well_formed)
  show "\<not> acyclic (edges loop_graph)" by (rule loop_graph_cyclic)
next
  fix ts
  have "at_node ''g'' ''start'' (snd (start_scene loop_scenes t0 ''g'' ''start'' sf))"
    using loop_lookups(1) loop_graph_well_formed by (rule start_scene_well_formed)
  then show "is_active (advance_all loop_scenes ts (snd (start_scene loop_scenes t0 ''g'' ''start'' sf)))"
    by (rule at_node_is_active [OF loop_forever])
  show "state_invariant loop_scenes
          (advance_all loop_scenes ts (snd (start_scene loop_scenes t0 ''g'' ''start'' sf)))"
    using loop_lookups(1) loop_graph_well_formed
    by (intro advance_all_invariant start_scene_well_formed_invariant)
qed

theorem advance_reaches_end_witness:
  "well_formed_graph demo_graph \<and> acyclic (edges demo_graph) \<and> length demo_graph = 2 \<and>
   (\<exists>k \<le> 2. \<not> is_active (advance_all demo_scenes (take k [''t1'', ''t2''])
                   (snd (start_scene demo_scenes ''t0'' ''g'' ''start'' Missing)))) \<and>
   state_invariant demo_scenes
     (advance_all demo_scenes [''t1'', ''t2'']
        (snd (start_scene demo_scenes ''t0'' ''g'' ''start'' Missing)))"
proof -
  have l: "length demo_graph = 2" by (simp add: demo_graph_def)
  from advance_reaches_end [where scenes = demo_scenes and sn = "''g''" and g = demo_graph and sf = Missing
              and ?t0.0 = "''t0''", OF demo_lookups(1) _ demo_graph_well_formed]
       demo_graph_acyclic
  have "\<forall>ts. length demo_graph \<le> length ts \<longrightarrow>
               (\<exists>k \<le> length demo_graph.
                  \<not> is_active (advance_all demo_scenes (take k ts)
                                 (snd (start_scene demo_scenes ''t0'' ''g'' ''start'' Missing))))"
    and i: "\<forall>ts. state_invariant demo_scenes
                 (advance_all demo_scenes ts (snd (start_scene demo_scenes ''t0'' ''g'' ''start'' Missing)))"
    by simp_all
  then have "\<exists>k \<le> 2. \<not> is_active (advance_all demo_scenes (take k [''t1'', ''t2''])
                   (snd (start_scene demo_scenes ''t0'' ''g'' ''start'' Missing)))"
    unfolding l by (drule_tac x = "[''t1'', ''t2'']" in spec) simp
  with i l demo_graph_well_formed demo_graph_acyclic show ?thesis by blast
qed

section \<open>Properties of the participant\<close>

text \<open>
  C1. In a tick where the state read is active and names this participant as next
  speaker, but the current node of the scene graph declares another speaker, the
  participant sends no message, does not call advance, and the state file is untouched.
\<close>

theorem stale_turn_is_abandoned:
  assumes "load_scene_state sf = JObj st"
    and "truthy (dict_get st ''scene_active'')"
    and "dict_get st ''next_speaker'' = JStr bot_name"
    and "dict_get st ''scene'' = JStr sn"
    and "dict_get st ''current_node'' = JStr cn"
    and "scenes sn = Content (JObj g)"
    and "map_of g cn = Some (JObj nd)"
    and "dict_get nd ''speaker'' \<noteq> JStr bot_name"
  shows "check_and_participate scenes now bot_name channel_up sf =
           \<lparr>sent = [], advance_called = False, state_after = sf\<rparr>"
proof -
  have n: "key_get g (JStr cn) = Some (JObj nd)"
    using assms(7) by (simp add: dict_get_def)
  have "perform_dialogue_turn scenes now bot_name channel_up sf st =
           \<lparr>sent = [], advance_called = False, state_after = sf\<rparr>"
    using assms(4-6,8) n by (simp add: perform_dialogue_turn_def load_scene_data_def Let_def)
  then show ?thesis
    using assms(1-3) by (simp add: check_and_participate_def Let_def)
qed

theorem stale_turn_is_abandoned_witness:
  "check_and_participate demo_scenes ''t1'' ''B'' True (demo_state ''start'' ''B'') =
     \<lparr>sent = [], advance_called = False, state_after = demo_state ''start'' ''B''\<rparr>"
  using stale_turn_is_abandoned [where sf = "demo_state ''start'' ''B''" and bot_name = "''B''" and sn = "''g''"
               and cn = "''start''" and scenes = demo_scenes and g = demo_graph
               and st = "[(''scene'', JStr ''g''), (''current_node'', JStr ''start''),
                    (''next_speaker'', JStr ''B''), (''waiting_for_choice'', JBool False),
                    (''started_at'', JStr ''t0''), (''scene_active'', JBool True)]"
               and nd = "[(''speaker'', JStr ''A''), (''text'', JStr ''hi''), (''next'', JStr ''end'')]"
               and now = "''t1''" and channel_up = True]
  by (simp add: demo_state_def demo_lookups dict_get_def)

end
